theory Spec2Isabelle
  imports Complex_Main
begin

section \<open>Python strings and the character classes of \<^verbatim>\<open>re\<close> and \<^verbatim>\<open>str\<close>\<close>

text \<open>
  A Python \<^verbatim>\<open>str\<close> is a sequence of Unicode code points, so a string is a list of
  natural numbers here; \<open>asc\<close> turns an ASCII literal into that representation.

  \<^verbatim>\<open>str.strip\<close>, \<^verbatim>\<open>str.split\<close> and the regex class \<^verbatim>\<open>\s\<close> use the same whitespace
  test, \<^verbatim>\<open>\w\<close> is "alphanumeric or underscore", \<^verbatim>\<open>\d\<close> is "decimal digit".
  Their values on the ASCII range are written out below. The values on the code points
  from 128 on come from the Unicode tables of the Python runtime, which are no part of
  this repository: they are the parameter \<open>U\<close>, and every theorem holds for each choice
  of it. \<^verbatim>\<open>str.lower\<close> is written out for all-ASCII strings and is a parameter on the
  others. One fact about the upper range is used and therefore fixed: the bullet U+2022
  (8226) is punctuation, neither whitespace nor alphanumeric.
\<close>

type_synonym pystr = "nat list"

definition asc :: "string \<Rightarrow> pystr" where
  "asc s = map of_char s"

record ucd =
  uc_isspace :: "nat \<Rightarrow> bool"
  uc_isalnum :: "nat \<Rightarrow> bool"
  uc_isdecimal :: "nat \<Rightarrow> bool"
  uc_lower :: "pystr \<Rightarrow> pystr"

definition isspace :: "ucd \<Rightarrow> nat \<Rightarrow> bool" where
  "isspace U c =
     (if c < 128 then (9 \<le> c \<and> c \<le> 13) \<or> (28 \<le> c \<and> c \<le> 32)
      else c \<noteq> 8226 \<and> uc_isspace U c)"

definition isdecimal :: "ucd \<Rightarrow> nat \<Rightarrow> bool" where
  "isdecimal U c = (if c < 128 then 48 \<le> c \<and> c \<le> 57 else uc_isdecimal U c)"

definition isalnum :: "ucd \<Rightarrow> nat \<Rightarrow> bool" where
  "isalnum U c =
     (if c < 128 then (48 \<le> c \<and> c \<le> 57) \<or> (65 \<le> c \<and> c \<le> 90) \<or> (97 \<le> c \<and> c \<le> 122)
      else c \<noteq> 8226 \<and> uc_isalnum U c)"

definition isword :: "ucd \<Rightarrow> nat \<Rightarrow> bool" where
  "isword U c = (isalnum U c \<or> c = 95)"

definition ascii_lower :: "nat \<Rightarrow> nat" where
  "ascii_lower c = (if 65 \<le> c \<and> c \<le> 90 then c + 32 else c)"

definition lower :: "ucd \<Rightarrow> pystr \<Rightarrow> pystr" where
  "lower U s = (if list_all (\<lambda>c. c < 128) s then map ascii_lower s else uc_lower U s)"

definition strip :: "ucd \<Rightarrow> pystr \<Rightarrow> pystr" where
  "strip U s = rev (dropWhile (isspace U) (rev (dropWhile (isspace U) s)))"

text \<open>\<^verbatim>\<open>s.split()\<close>: the maximal runs of non-whitespace, in order.\<close>

fun split_ws_aux :: "ucd \<Rightarrow> pystr \<Rightarrow> pystr \<Rightarrow> pystr list" where
  "split_ws_aux U w [] = (if w = [] then [] else [w])"
| "split_ws_aux U w (c # cs) =
     (if isspace U c then (if w = [] then [] else [w]) @ split_ws_aux U [] cs
      else split_ws_aux U (w @ [c]) cs)"

definition split_ws :: "ucd \<Rightarrow> pystr \<Rightarrow> pystr list" where
  "split_ws U s = split_ws_aux U [] s"

text \<open>\<^verbatim>\<open>s.split(sep)\<close> for a one-character separator: always at least one segment.\<close>

fun split_on_aux :: "nat \<Rightarrow> pystr \<Rightarrow> pystr \<Rightarrow> pystr list" where
  "split_on_aux sep w [] = [w]"
| "split_on_aux sep w (c # cs) =
     (if c = sep then w # split_on_aux sep [] cs else split_on_aux sep (w @ [c]) cs)"

definition split_on :: "nat \<Rightarrow> pystr \<Rightarrow> pystr list" where
  "split_on sep s = split_on_aux sep [] s"

text \<open>\<^verbatim>\<open>s.startswith(p)\<close> and \<^verbatim>\<open>p in s\<close>.\<close>

fun startswith :: "pystr \<Rightarrow> pystr \<Rightarrow> bool" where
  "startswith s [] = True"
| "startswith [] (p # ps) = False"
| "startswith (c # cs) (p # ps) = (c = p \<and> startswith cs ps)"

fun contains :: "pystr \<Rightarrow> pystr \<Rightarrow> bool" where
  "contains p [] = (p = [])"
| "contains p (c # cs) = (startswith (c # cs) p \<or> contains p cs)"

text \<open>
  \<^verbatim>\<open>round(x, ndigits)\<close>. Python rounds the binary double; here the exact rational is
  rounded, half to even. The two agree except where the exact value is (within double
  precision of) a tie between two neighbours.
\<close>

definition py_round :: "rat \<Rightarrow> nat \<Rightarrow> rat" where
  "py_round x ndigits =
     (let m = 10 ^ ndigits; y = x * m; f = \<lfloor>y\<rfloor>; d = y - of_int f
      in of_int (if d < 1 / 2 then f else if 1 / 2 < d then f + 1
                 else if even f then f else f + 1) / m)"

section \<open>Exceptions\<close>

datatype exn =
    AttributeError pystr
  | TypeError pystr
  | SqliteError pystr
  | ServiceError pystr
  | OSError pystr

fun str_exn :: "exn \<Rightarrow> pystr" where
  "str_exn (AttributeError m) = m"
| "str_exn (TypeError m) = m"
| "str_exn (SqliteError m) = m"
| "str_exn (ServiceError m) = m"
| "str_exn (OSError m) = m"

section \<open>Quality evaluation (\<^verbatim>\<open>backend.py\<close>, \<^verbatim>\<open>evaluate_summary_quality\<close>)\<close>

text \<open>
  The arguments are annotated \<^verbatim>\<open>str\<close>, which Python does not enforce: a caller can pass
  \<^verbatim>\<open>None\<close>, and then the first method call on it raises inside the \<^verbatim>\<open>try\<close>.
\<close>

datatype pyarg = Str pystr | NoneVal

text \<open>
  The report is a dict; a key that is absent is \<open>None\<close>. The word counts divide as
  exact rationals: the doubles of the source order the same way against
  \<^verbatim>\<open>0.05\<close> and \<^verbatim>\<open>0.4\<close> for every word count below \<open>2 ^ 50\<close>, since division and the
  literals are correctly rounded.
\<close>

record quality_report =
  qr_error :: "pystr option"
  quality_score :: int
  overall_rating :: pystr
  compression_ratio :: "rat option"
  original_length :: "nat option"
  summary_length :: "nat option"
  feedback :: "pystr list option"
  suggestions :: "pystr list option"

definition note_good_compression :: pystr where
  "note_good_compression = 9989 # asc '' Good compression ratio''"

definition note_too_brief :: pystr where
  "note_too_brief = [9888, 65039] @ asc '' Summary might be too brief''"

definition note_too_verbose :: pystr where
  "note_too_verbose = [9888, 65039] @ asc '' Summary might be too verbose''"

definition note_indicators :: pystr where
  "note_indicators = 9989 # asc '' Contains key content indicators''"

definition note_structure :: pystr where
  "note_structure = 9989 # asc '' Well-structured format''"

definition note_length :: pystr where
  "note_length = 9989 # asc '' Appropriate summary length''"

definition note_too_short :: pystr where
  "note_too_short = [9888, 65039] @ asc '' Summary might be too short''"

definition note_sentences :: pystr where
  "note_sentences = 9989 # asc '' Contains complete thoughts''"

definition key_indicators :: "pystr list" where
  "key_indicators = map asc [''conclusion'', ''summary'', ''therefore'', ''thus'',
     ''overall'', ''key'', ''important'', ''main'']"

text \<open>\<^verbatim>\<open>len(s.split())\<close>, and the ratio of the two word counts.\<close>

definition word_count :: "ucd \<Rightarrow> pystr \<Rightarrow> nat" where
  "word_count U s = length (split_ws U s)"

definition ratio_of :: "ucd \<Rightarrow> pystr \<Rightarrow> pystr \<Rightarrow> rat" where
  "ratio_of U original_text summary =
     (if word_count U original_text > 0
      then of_nat (word_count U summary) / of_nat (word_count U original_text) else 0)"

text \<open>Each block of the function adds its points and appends its notes.\<close>

definition check_compression :: "rat \<Rightarrow> int \<times> pystr list" where
  "check_compression r =
     (if 1 / 20 \<le> r \<and> r \<le> 2 / 5 then (25, [note_good_compression])
      else if r < 1 / 20 then (0, [note_too_brief])
      else (0, [note_too_verbose]))"

definition check_indicators :: "ucd \<Rightarrow> pystr \<Rightarrow> int \<times> pystr list" where
  "check_indicators U summary =
     (if list_ex (\<lambda>indicator. contains indicator (lower U summary)) key_indicators
      then (20, [note_indicators]) else (0, []))"

definition check_structure :: "pystr \<Rightarrow> int \<times> pystr list" where
  "check_structure summary =
     (if contains [8226] summary \<or> contains [45] summary \<or> contains [10] summary
      then (15, [note_structure]) else (0, []))"

definition check_length :: "nat \<Rightarrow> int \<times> pystr list" where
  "check_length summary_len =
     (if summary_len \<ge> 50 then (20, [note_length])
      else if summary_len < 20 then (0, [note_too_short])
      else (0, []))"

definition check_sentences :: "pystr \<Rightarrow> int \<times> pystr list" where
  "check_sentences summary =
     (if length (split_on 46 summary) \<ge> 2 then (20, [note_sentences]) else (0, []))"

definition rating :: "int \<Rightarrow> pystr" where
  "rating score =
     (if score \<ge> 80 then asc ''Excellent''
      else if score \<ge> 60 then asc ''Good''
      else if score \<ge> 40 then asc ''Fair''
      else asc ''Needs Improvement'')"

definition get_improvement_suggestions :: "int \<Rightarrow> rat \<Rightarrow> pystr list" where
  "get_improvement_suggestions score r =
     (if score < 60 then [asc ''Consider regenerating with a different style'',
                          asc ''Check if the document text is properly extracted''] else [])
     @ (if r < 1 / 20 then [asc ''Try '' @ [39] @ asc ''Detailed'' @ [39]
                            @ asc '' style for more comprehensive summary''] else [])
     @ (if r > 2 / 5 then [asc ''Try '' @ [39] @ asc ''Abstract'' @ [39]
                            @ asc '' style for more concise summary''] else [])
     @ (if score < 40 then [asc ''Verify document format is supported'',
                            asc ''Ensure document contains readable text content''] else [])"

definition score_report :: "ucd \<Rightarrow> pystr \<Rightarrow> pystr \<Rightarrow> quality_report" where
  "score_report U original_text summary =
     (let ol = word_count U original_text;
          sl = word_count U summary;
          r = ratio_of U original_text summary;
          c1 = check_compression r;
          c2 = check_indicators U summary;
          c3 = check_structure summary;
          c4 = check_length sl;
          c5 = check_sentences summary;
          score = 0 + fst c1 + fst c2 + fst c3 + fst c4 + fst c5
      in \<lparr> qr_error = None,
           quality_score = score,
           overall_rating = rating score,
           compression_ratio = Some (py_round (r * 100) 1),
           original_length = Some ol,
           summary_length = Some sl,
           feedback = Some (snd c1 @ snd c2 @ snd c3 @ snd c4 @ snd c5),
           suggestions = Some (get_improvement_suggestions score r) \<rparr>)"

definition none_has_no_split :: pystr where
  "none_has_no_split = [39] @ asc ''NoneType'' @ [39] @ asc '' object has no attribute '' @ [39]
     @ asc ''split'' @ [39]"

text \<open>The body of the \<^verbatim>\<open>try\<close>: its first two statements call \<^verbatim>\<open>split\<close> on the arguments.\<close>

fun evaluate_try :: "ucd \<Rightarrow> pyarg \<Rightarrow> pyarg \<Rightarrow> exn + quality_report" where
  "evaluate_try U NoneVal summary = Inl (AttributeError none_has_no_split)"
| "evaluate_try U (Str original_text) NoneVal = Inl (AttributeError none_has_no_split)"
| "evaluate_try U (Str original_text) (Str summary) = Inr (score_report U original_text summary)"

definition error_report :: "exn \<Rightarrow> quality_report" where
  "error_report e =
     \<lparr> qr_error = Some (asc ''Error evaluating summary: '' @ str_exn e),
       quality_score = 0,
       overall_rating = asc ''Error'',
       compression_ratio = None, original_length = None, summary_length = None,
       feedback = None, suggestions = None \<rparr>"

definition evaluate_summary_quality :: "ucd \<Rightarrow> pyarg \<Rightarrow> pyarg \<Rightarrow> quality_report" where
  "evaluate_summary_quality U original_text summary =
     (case evaluate_try U original_text summary of
        Inr report \<Rightarrow> report
      | Inl e \<Rightarrow> error_report e)"

section \<open>Text normalisation (\<^verbatim>\<open>backend.py\<close>, \<^verbatim>\<open>preprocess_text\<close>)\<close>

text \<open>
  Each \<^verbatim>\<open>re.sub\<close> is a scan from the left: where the pattern matches at the current
  position the replacement is emitted and the scan goes on behind the match, otherwise
  the character is copied. No pattern of this function matches the empty string.

  \<^verbatim>\<open>re.sub(r'\s+', ' ', s)\<close>
\<close>

function collapse_ws :: "ucd \<Rightarrow> pystr \<Rightarrow> pystr" where
  "collapse_ws U [] = []"
| "collapse_ws U (c # cs) =
     (if isspace U c then 32 # collapse_ws U (dropWhile (isspace U) cs)
      else c # collapse_ws U cs)"
  by pat_completeness auto
termination
  by (relation "measure (\<lambda>(U, s). length s)") (auto simp: le_imp_less_Suc length_dropWhile_le)

text \<open>\<^verbatim>\<open>re.sub(r'[^\w\s\.\,\!\?\;\:\-\(\)\[\]\{\}]', '', s)\<close>\<close>

definition retained :: "ucd \<Rightarrow> nat \<Rightarrow> bool" where
  "retained U c = (isword U c \<or> isspace U c \<or> c \<in> set (asc ''.,!?;:-()[]{}''))"

definition strip_noise :: "ucd \<Rightarrow> pystr \<Rightarrow> pystr" where
  "strip_noise U s = filter (retained U) s"

text \<open>\<^verbatim>\<open>re.sub(r'(\w)X(\w)', r'\1Y\2', s)\<close> for one character \<open>X\<close> and its replacement \<open>Y\<close>:
  the bar 124 by the letter l (108), the digit 0 (48) by the letter o (111). A match
  consumes its three characters, so the character closing one match cannot open the next.\<close>

fun fix_ocr :: "ucd \<Rightarrow> nat \<Rightarrow> nat \<Rightarrow> pystr \<Rightarrow> pystr" where
  "fix_ocr U x y (a # b # c # rest) =
     (if isword U a \<and> b = x \<and> isword U c then a # y # c # fix_ocr U x y rest
      else a # fix_ocr U x y (b # c # rest))"
| "fix_ocr U x y s = s"

text \<open>\<^verbatim>\<open>re.sub(r'Page \d+', '', s)\<close>\<close>

function remove_page :: "ucd \<Rightarrow> pystr \<Rightarrow> pystr" where
  "remove_page U [] = []"
| "remove_page U (c # cs) =
     (if startswith (c # cs) (asc ''Page '') \<and> list_ex (isdecimal U) (take 1 (drop 4 cs))
      then remove_page U (dropWhile (isdecimal U) (drop 4 cs))
      else c # remove_page U cs)"
  by pat_completeness auto
termination
proof (relation "measure (\<lambda>(U, s). length s)", goal_cases)
  case (2 U c cs)
  have "length (dropWhile (isdecimal U) (drop 4 cs)) \<le> length (drop 4 cs)"
    by (rule length_dropWhile_le)
  then show ?case by simp
qed auto

text \<open>
  \<^verbatim>\<open>re.sub(r'^\d+\s*', '', s, flags=re.MULTILINE)\<close>. The flag \<open>bol\<close> says that the
  current position is the start of the string or follows a newline (10), which is where
  \<^verbatim>\<open>^\<close> matches; after a match it is decided by the last character consumed.
\<close>

function remove_line_numbers :: "ucd \<Rightarrow> bool \<Rightarrow> pystr \<Rightarrow> pystr" where
  "remove_line_numbers U bol [] = []"
| "remove_line_numbers U bol (c # cs) =
     (if bol \<and> isdecimal U c
      then remove_line_numbers U
             (list_ex (\<lambda>x. x = 10) (take 1 (rev (takeWhile (isspace U) (dropWhile (isdecimal U) cs)))))
             (dropWhile (isspace U) (dropWhile (isdecimal U) cs))
      else c # remove_line_numbers U (c = 10) cs)"
  by pat_completeness auto
termination
proof (relation "measure (\<lambda>(U, bol, s). length s)", goal_cases)
  case (2 U bol c cs)
  have "length (dropWhile (isspace U) (dropWhile (isdecimal U) cs))
        \<le> length (dropWhile (isdecimal U) cs)"
    by (rule length_dropWhile_le)
  also have "\<dots> \<le> length cs"
    by (rule length_dropWhile_le)
  finally show ?case by simp
qed auto

text \<open>\<^verbatim>\<open>re.sub(r'^\s*[U+2022\-\*]\s*', '', s, flags=re.MULTILINE)\<close>\<close>

definition is_bullet :: "nat \<Rightarrow> bool" where
  "is_bullet c = (c = 8226 \<or> c = 45 \<or> c = 42)"

function remove_bullets :: "ucd \<Rightarrow> bool \<Rightarrow> pystr \<Rightarrow> pystr" where
  "remove_bullets U bol [] = []"
| "remove_bullets U bol (c # cs) =
     (if bol \<and> list_ex is_bullet (take 1 (dropWhile (isspace U) (c # cs)))
      then remove_bullets U
             (list_ex (\<lambda>x. x = 10)
                (take 1 (rev (takeWhile (isspace U) (drop 1 (dropWhile (isspace U) (c # cs)))))))
             (dropWhile (isspace U) (drop 1 (dropWhile (isspace U) (c # cs))))
      else c # remove_bullets U (c = 10) cs)"
  by pat_completeness auto
termination
proof (relation "measure (\<lambda>(U, bol, s). length s)", goal_cases)
  case (2 U bol c cs)
  then have ne: "dropWhile (isspace U) (c # cs) \<noteq> []"
    by (cases "dropWhile (isspace U) (c # cs)") simp_all
  have "length (dropWhile (isspace U) (drop 1 (dropWhile (isspace U) (c # cs))))
        \<le> length (drop 1 (dropWhile (isspace U) (c # cs)))"
    by (rule length_dropWhile_le)
  also have "\<dots> < length (dropWhile (isspace U) (c # cs))"
    using ne by (cases "dropWhile (isspace U) (c # cs)") simp_all
  also have "\<dots> \<le> length (c # cs)"
    by (rule length_dropWhile_le)
  finally show ?case by simp
qed auto

text \<open>
  \<^verbatim>\<open>re.sub(r'\n\s*\n\s*\n+', '\n\n', s)\<close>. A match starts at a newline whose whitespace
  run holds at least two more newlines, and by greediness ends at the last newline of
  that run.
\<close>

definition nl_count :: "ucd \<Rightarrow> pystr \<Rightarrow> nat" where
  "nl_count U s = length (filter (\<lambda>x. x = 10) (takeWhile (isspace U) s))"

fun after_last_nl :: "ucd \<Rightarrow> pystr \<Rightarrow> pystr" where
  "after_last_nl U [] = []"
| "after_last_nl U (c # cs) =
     (if nl_count U (c # cs) > 0 then after_last_nl U cs else c # cs)"

function squeeze_newlines :: "ucd \<Rightarrow> pystr \<Rightarrow> pystr" where
  "squeeze_newlines U [] = []"
| "squeeze_newlines U (c # cs) =
     (if c = 10 \<and> nl_count U cs \<ge> 2
      then 10 # 10 # squeeze_newlines U (after_last_nl U cs)
      else c # squeeze_newlines U cs)"
  by pat_completeness auto
termination
proof (relation "measure (\<lambda>(U, s). length s)", goal_cases)
  case (2 U c cs)
  have "length (after_last_nl U cs) \<le> length cs"
    by (induction cs) auto
  then show ?case by simp
qed auto

text \<open>\<^verbatim>\<open>re.sub(r'([.!?])\s*([A-Z])', r'\1 \2', s)\<close>\<close>

function fix_sentences :: "ucd \<Rightarrow> pystr \<Rightarrow> pystr" where
  "fix_sentences U [] = []"
| "fix_sentences U (c # cs) =
     (if (c = 46 \<or> c = 33 \<or> c = 63)
         \<and> list_ex (\<lambda>x. 65 \<le> x \<and> x \<le> 90) (take 1 (dropWhile (isspace U) cs))
      then c # 32 # take 1 (dropWhile (isspace U) cs)
             @ fix_sentences U (drop 1 (dropWhile (isspace U) cs))
      else c # fix_sentences U cs)"
  by pat_completeness auto
termination
proof (relation "measure (\<lambda>(U, s). length s)", goal_cases)
  case (2 U c cs)
  have "length (drop 1 (dropWhile (isspace U) cs)) \<le> length (dropWhile (isspace U) cs)"
    by simp
  also have "\<dots> \<le> length cs"
    by (rule length_dropWhile_le)
  finally show ?case by simp
qed auto

text \<open>The pipeline. \<^verbatim>\<open>not text or not text.strip()\<close> is the guard of the first line.\<close>

definition preprocess_text :: "ucd \<Rightarrow> pystr \<Rightarrow> pystr" where
  "preprocess_text U text =
     (if text = [] \<or> strip U text = [] then []
      else let t1 = collapse_ws U (strip U text);
               t2 = strip_noise U t1;
               t3 = fix_ocr U 124 108 t2;
               t4 = fix_ocr U 48 111 t3;
               t5 = remove_page U t4;
               t6 = remove_line_numbers U True t5;
               t7 = remove_bullets U True t6;
               t8 = squeeze_newlines U t7;
               t9 = fix_sentences U t8
           in strip U t9)"

section \<open>Prompt construction and generation (\<^verbatim>\<open>build_prompt\<close>, \<^verbatim>\<open>summarize_text\<close>)\<close>

definition prompt_bullet :: "pystr \<Rightarrow> pystr" where
  "prompt_bullet text =
     asc ''Please provide a comprehensive bullet-point summary of the following document. '' @
     [10] @ [10] @ asc ''Requirements:'' @ [10] @
     asc ''- Extract the most important key points and main ideas'' @ [10] @
     asc ''- Maintain logical flow and hierarchy'' @ [10] @
     asc ''- Use clear, actionable bullet points'' @ [10] @
     asc ''- Include relevant facts, figures, and conclusions'' @ [10] @
     asc ''- Ensure accuracy and completeness'' @ [10] @ [10] @
     asc ''Document to summarize:'' @ [10] @ text @ [10] @ [10] @
     asc ''Please provide a well-structured bullet-point summary:''"

definition prompt_abstract :: "pystr \<Rightarrow> pystr" where
  "prompt_abstract text =
     asc ''Please write a professional abstract summary of the following document.'' @ [10] @
     [10] @ asc ''Requirements:'' @ [10] @
     asc ''- 3-4 concise sentences capturing the essence'' @ [10] @
     asc ''- Include main topic, key findings, methodology (if applicable), and conclusions'' @
     [10] @ asc ''- Use academic/professional tone'' @ [10] @
     asc ''- Maintain factual accuracy'' @ [10] @
     asc ''- Highlight the most significant contributions or insights'' @ [10] @ [10] @
     asc ''Document to summarize:'' @ [10] @ text @ [10] @ [10] @
     asc ''Please provide a professional abstract:''"

definition prompt_detailed :: "pystr \<Rightarrow> pystr" where
  "prompt_detailed text =
     asc ''Please provide a comprehensive, detailed summary of the following document.'' @
     [10] @ [10] @ asc ''Requirements:'' @ [10] @
     asc ''- Cover main arguments, supporting evidence, and conclusions'' @ [10] @
     asc ''- Maintain the document'' @ [39] @ asc ''s logical structure'' @ [10] @
     asc ''- Include key examples, data points, and references'' @ [10] @
     asc ''- Provide context and background information'' @ [10] @
     asc ''- Ensure thorough understanding while maintaining clarity'' @ [10] @
     asc ''- Highlight relationships between different sections/ideas'' @ [10] @ [10] @
     asc ''Document to summarize:'' @ [10] @ text @ [10] @ [10] @
     asc ''Please provide a detailed summary:''"

definition prompt_default :: "pystr \<Rightarrow> pystr" where
  "prompt_default text =
     asc ''Please provide a comprehensive summary of the following document.'' @ [10] @ [10] @
     asc ''Requirements:'' @ [10] @ asc ''- Identify main themes and key points'' @ [10] @
     asc ''- Maintain accuracy and completeness'' @ [10] @
     asc ''- Use clear, professional language'' @ [10] @
     asc ''- Highlight important conclusions and implications'' @ [10] @ [10] @
     asc ''Document to summarize:'' @ [10] @ text @ [10] @ [10] @
     asc ''Please provide a summary:''"

definition build_prompt :: "pystr \<Rightarrow> pystr \<Rightarrow> pystr" where
  "build_prompt text style =
     (if style = asc ''bullet'' then prompt_bullet text
      else if style = asc ''abstract'' then prompt_abstract text
      else if style = asc ''detailed'' then prompt_detailed text
      else prompt_default text)"

text \<open>
  The generative service is outside the repository. \<open>new_model\<close> is the constructor
  \<^verbatim>\<open>genai.GenerativeModel(name)\<close>, which may raise; \<open>generate_content\<close> takes the prompt
  and gives \<^verbatim>\<open>response.text\<close>, or the exception raised by the call or by reading
  the text of a blocked response. An empty text stands for every falsy value.

  \<open>summarize_text\<close> returns its string together with the prompts it has sent to
  the service, in order: the second component is empty exactly when the service was
  not invoked.
\<close>

record genai =
  new_model :: "pystr \<Rightarrow> exn option"
  generate_content :: "pystr \<Rightarrow> exn + pystr"

definition err_no_text :: pystr where
  "err_no_text = asc ''Error: No text provided for summarization''"

definition err_empty_content :: pystr where
  "err_empty_content = asc ''Error: Text preprocessing resulted in empty content''"

definition summarize_text :: "ucd \<Rightarrow> genai \<Rightarrow> pystr \<Rightarrow> pystr \<Rightarrow> pystr \<times> pystr list" where
  "summarize_text U G text style =
     (if text = [] \<or> strip U text = [] then (err_no_text, [])
      else let cleaned_text = preprocess_text U text in
        if cleaned_text = [] then (err_empty_content, [])
        else case new_model G (asc ''gemini-1.5-flash'') of
               Some e \<Rightarrow> (asc ''Error: '' @ str_exn e, [])
             | None \<Rightarrow>
                 let prompt = build_prompt cleaned_text style in
                 (case generate_content G prompt of
                    Inl e \<Rightarrow> (asc ''Error generating summary: '' @ str_exn e, [prompt])
                  | Inr response_text \<Rightarrow>
                      if response_text \<noteq> [] then (strip U response_text, [prompt])
                      else (asc ''Error: No summary generated. Please try again.'', [prompt])))"

section \<open>The store (\<^verbatim>\<open>database.py\<close>, \<^verbatim>\<open>SummaryDatabase\<close>)\<close>

text \<open>
  One row of the table \<^verbatim>\<open>summaries\<close>; a nullable column is an option. The
  timestamp \<^verbatim>\<open>created_at\<close> is a number of seconds: SQLite stores the text
  \<^verbatim>\<open>YYYY-MM-DD HH:MM:SS\<close>, whose order is the order of time.
\<close>

record summary_row =
  row_id :: nat
  row_user_id :: pystr
  row_document_name :: pystr
  row_document_type :: pystr
  row_original_text :: pystr
  row_summary :: pystr
  row_summary_style :: pystr
  row_quality_score :: "rat option"
  row_created_at :: nat
  row_file_size :: "int option"
  row_processing_time :: "rat option"
  row_word_count :: "int option"
  row_summary_word_count :: "int option"

text \<open>
  The state of the database file: the rows in rowid order, the counter that
  \<^verbatim>\<open>AUTOINCREMENT\<close> keeps in \<^verbatim>\<open>sqlite_sequence\<close>, and the condition of the storage
  layer: with \<open>fault = Some e\<close> every statement raises \<open>e\<close> (locked or unwritable
  file, full disk).
\<close>

record database =
  rows :: "summary_row list"
  seq :: nat
  fault :: "exn option"

text \<open>The primary key: no two rows share an id, and no id is beyond the counter.\<close>

definition db_ok :: "database \<Rightarrow> bool" where
  "db_ok db = (distinct (map row_id (rows db)) \<and> list_all (\<lambda>r. row_id r \<le> seq db) (rows db))"


text \<open>
  \<^verbatim>\<open>ORDER BY created_at DESC\<close>. SQL leaves the order of rows with equal keys open; the
  model keeps them in rowid order. No theorem below depends on that choice.
\<close>

fun insert_desc :: "summary_row \<Rightarrow> summary_row list \<Rightarrow> summary_row list" where
  "insert_desc r [] = [r]"
| "insert_desc r (x # xs) =
     (if row_created_at x \<le> row_created_at r then r # x # xs else x # insert_desc r xs)"

definition order_by_created_desc :: "summary_row list \<Rightarrow> summary_row list" where
  "order_by_created_desc xs = foldr insert_desc xs []"

text \<open>\<^verbatim>\<open>LIMIT ? OFFSET ?\<close>: a negative limit is no limit, a negative offset is 0.\<close>

definition sql_limit :: "int \<Rightarrow> int \<Rightarrow> 'a list \<Rightarrow> 'a list" where
  "sql_limit limit off xs =
     (if limit < 0 then drop (nat off) xs else take (nat limit) (drop (nat off) xs))"

definition get_user_summaries :: "database \<Rightarrow> pystr \<Rightarrow> int \<Rightarrow> int \<Rightarrow> exn + summary_row list" where
  "get_user_summaries db user_id limit off =
     (case fault db of
        Some e \<Rightarrow> Inl e
      | None \<Rightarrow> Inr (sql_limit limit off
                 (order_by_created_desc (filter (\<lambda>r. row_user_id r = user_id) (rows db)))))"

definition get_summary_by_id :: "database \<Rightarrow> nat \<Rightarrow> exn + summary_row option" where
  "get_summary_by_id db summary_id =
     (case fault db of
        Some e \<Rightarrow> Inl e
      | None \<Rightarrow> Inr (find (\<lambda>r. row_id r = summary_id) (rows db)))"





text \<open>\<^verbatim>\<open>delete_summary\<close> returns \<^verbatim>\<open>deleted_count > 0\<close> and the new state.\<close>

definition delete_summary :: "database \<Rightarrow> nat \<Rightarrow> pystr \<Rightarrow> exn + (bool \<times> database)" where
  "delete_summary db summary_id user_id =
     (case fault db of
        Some e \<Rightarrow> Inl e
      | None \<Rightarrow>
          let hit = (\<lambda>r. row_id r = summary_id \<and> row_user_id r = user_id);
              deleted_count = length (filter hit (rows db))
          in Inr (deleted_count > 0, db \<lparr> rows := filter (\<lambda>r. \<not> hit r) (rows db) \<rparr>))"












section \<open>The orchestrator (\<^verbatim>\<open>backend.py\<close>, \<^verbatim>\<open>summarize_text_with_db\<close>)\<close>





text \<open>The result dict; a key that is absent is \<open>None\<close>.\<close>

record outcome =
  success :: bool
  out_error :: "pystr option"
  out_summary :: "pystr option"
  summary_id :: "nat option"
  file_path :: "pystr option"
  quality_metrics :: "quality_report option"
  processing_time :: "rat option"
  out_word_count :: "nat option"
  summary_word_count :: "nat option"
  message :: "pystr option"
  warning :: "pystr option"



text \<open>A classification of the code points from 128 on, for running the model: none of
  them is whitespace, alphanumeric or a digit, and lowering leaves them alone.\<close>

definition ucd0 :: ucd where
  "ucd0 = \<lparr> uc_isspace = (\<lambda>c. False), uc_isalnum = (\<lambda>c. False),
            uc_isdecimal = (\<lambda>c. False), uc_lower = (\<lambda>s. s) \<rparr>"

section \<open>Notions used in the properties, and values for running the model\<close>

text \<open>A pair to run the evaluator on: an original of twenty words, a summary of three.\<close>

definition ex_original :: pystr where
  "ex_original = asc ''a b c d e f g h i j k l m n o p q r s t''"

definition ex_summary :: pystr where
  "ex_summary = asc ''key - a.''"

text \<open>
  A service that answers every prompt with the same text, surroundings in which the file
  system works, and a store whose file is locked.
\<close>

definition genai0 :: genai where
  "genai0 = \<lparr> new_model = (\<lambda>name. None), generate_content = (\<lambda>prompt. Inr (asc '' key - a. '')) \<rparr>"



text \<open>Two rows of two users, and the store that holds them.\<close>

definition row1 :: summary_row where
  "row1 = \<lparr> row_id = 1, row_user_id = asc ''alice'', row_document_name = asc ''Report.pdf'',
            row_document_type = asc ''pdf'', row_original_text = asc ''quarterly numbers'',
            row_summary = asc ''Sales rose.'', row_summary_style = asc ''bullet'',
            row_quality_score = Some 40, row_created_at = 100, row_file_size = None,
            row_processing_time = None, row_word_count = Some 2, row_summary_word_count = Some 2 \<rparr>"

definition row2 :: summary_row where
  "row2 = \<lparr> row_id = 2, row_user_id = asc ''bob'', row_document_name = asc ''abc'',
            row_document_type = asc ''text'', row_original_text = asc ''t'',
            row_summary = asc ''s'', row_summary_style = asc ''abstract'',
            row_quality_score = None, row_created_at = 200, row_file_size = None,
            row_processing_time = None, row_word_count = None, row_summary_word_count = None \<rparr>"

definition db2 :: database where
  "db2 = \<lparr> rows = [row1, row2], seq = 2, fault = None \<rparr>"



text \<open>
  A text is \<open>spaced\<close> when it neither starts nor ends with whitespace and its only
  whitespace is single blanks (32) between other characters.
\<close>

fun spaced :: "ucd \<Rightarrow> pystr \<Rightarrow> bool" where
  "spaced U [] = True"
| "spaced U [c] = (\<not> isspace U c)"
| "spaced U (c # d # ds) =
     (\<not> isspace U c \<and>
      (if isspace U d then d = 32 \<and> ds \<noteq> [] \<and> spaced U ds else spaced U (d # ds)))"

text \<open>A text without digits, hyphens or characters that the noise filter deletes.\<close>

definition ex_plain :: pystr where
  "ex_plain = asc ''  Hello   world.This is fine? Yes  ''"


section \<open>Properties of the quality evaluation\<close>

lemma check_points:
  "fst (check_indicators U s) \<in> {0, 20}" "fst (check_structure s) \<in> {0, 15}"
  "fst (check_length n) \<in> {0, 20}" "fst (check_sentences s) \<in> {0, 20}"
  "fst (check_compression r) \<in> {0, 25}"
  by (simp_all add: check_indicators_def check_structure_def check_length_def
        check_sentences_def check_compression_def)

lemma evaluate_Str:
  "evaluate_summary_quality U (Str original) (Str summary) = score_report U original summary"
  by (simp add: evaluate_summary_quality_def)

lemma score_report_score:
  "quality_score (score_report U original summary) =
     fst (check_compression (ratio_of U original summary))
     + fst (check_indicators U summary) + fst (check_structure summary)
     + fst (check_length (word_count U summary)) + fst (check_sentences summary)"
  by (simp add: score_report_def Let_def)

lemma score_report_rating:
  "overall_rating (score_report U original summary) =
     rating (quality_score (score_report U original summary))"
  by (simp add: score_report_def Let_def)





lemma ex_counts:
  "word_count ucd0 ex_original = 20" "word_count ucd0 ex_summary = 3"
  by (simp_all add: word_count_def split_ws_def ex_original_def ex_summary_def asc_def isspace_def)

lemma ex_ratio: "ratio_of ucd0 ex_original ex_summary = 3 / 20"
  by (simp add: ratio_of_def ex_counts)

lemma ex_checks:
  "check_indicators ucd0 ex_summary = (20, [note_indicators])"
  "check_structure ex_summary = (15, [note_structure])"
  "check_sentences ex_summary = (20, [note_sentences])"
  "check_length 3 = (0, [note_too_short])"
  by (simp_all add: check_indicators_def check_structure_def check_sentences_def check_length_def
        ex_summary_def asc_def lower_def ascii_lower_def key_indicators_def split_on_def)


text \<open>
  Claim C4. For every pair of strings the score lies between 0 and 100, and the rating
  follows from the score by inclusive thresholds: 80 and more is "Excellent", 60 and more
  "Good", 40 and more "Fair", less "Needs Improvement". The witness is a pair that scores
  exactly 80 and is rated "Excellent".
\<close>

theorem score_range_and_rating:
  "0 \<le> quality_score (evaluate_summary_quality U (Str original) (Str summary)) \<and>
   quality_score (evaluate_summary_quality U (Str original) (Str summary)) \<le> 100 \<and>
   overall_rating (evaluate_summary_quality U (Str original) (Str summary)) =
     (let score = quality_score (evaluate_summary_quality U (Str original) (Str summary)) in
      if score \<ge> 80 then asc ''Excellent''
      else if score \<ge> 60 then asc ''Good''
      else if score \<ge> 40 then asc ''Fair''
      else asc ''Needs Improvement'')"
proof -
  let ?q = "quality_score (score_report U original summary)"
  have "0 \<le> ?q \<and> ?q \<le> 100"
    unfolding score_report_score
    using check_points(1) [of U summary] check_points(2) [of summary]
      check_points(3) [of "word_count U summary"] check_points(4) [of summary]
      check_points(5) [of "ratio_of U original summary"]
    by auto
  moreover have "overall_rating (score_report U original summary) = rating ?q"
    by (rule score_report_rating)
  ultimately show ?thesis
    by (simp add: evaluate_Str rating_def Let_def)
qed

lemma ex_score: "quality_score (score_report ucd0 ex_original ex_summary) = 80"
  by (simp add: score_report_score ex_ratio ex_counts ex_checks check_compression_def)

theorem score_range_and_rating_witness:
  "quality_score (evaluate_summary_quality ucd0 (Str ex_original) (Str ex_summary)) = 80 \<and>
   overall_rating (evaluate_summary_quality ucd0 (Str ex_original) (Str ex_summary))
     = asc ''Excellent''"
  using score_range_and_rating [of ucd0 ex_original ex_summary]
  by (simp add: evaluate_Str ex_score)

text \<open>
  Claim C5. The evaluator never raises: either the body of its \<^verbatim>\<open>try\<close> returns a
  report, which is the result, or it raises some \<open>e\<close>, and then the result is a report
  with score 0, rating "Error" and an error note that carries the message of \<open>e\<close>.
  The witness passes \<^verbatim>\<open>None\<close> for the original text.
\<close>

theorem evaluate_never_raises:
  "(\<exists>report. evaluate_try U original summary = Inr report
       \<and> evaluate_summary_quality U original summary = report)
   \<or> (\<exists>e. evaluate_try U original summary = Inl e
       \<and> quality_score (evaluate_summary_quality U original summary) = 0
       \<and> overall_rating (evaluate_summary_quality U original summary) = asc ''Error''
       \<and> qr_error (evaluate_summary_quality U original summary)
           = Some (asc ''Error evaluating summary: '' @ str_exn e))"
  by (cases "evaluate_try U original summary")
     (simp_all add: evaluate_summary_quality_def error_report_def)

theorem evaluate_never_raises_witness:
  "evaluate_try ucd0 NoneVal (Str ex_summary) = Inl (AttributeError none_has_no_split) \<and>
   quality_score (evaluate_summary_quality ucd0 NoneVal (Str ex_summary)) = 0 \<and>
   overall_rating (evaluate_summary_quality ucd0 NoneVal (Str ex_summary)) = asc ''Error'' \<and>
   qr_error (evaluate_summary_quality ucd0 NoneVal (Str ex_summary))
     = Some (asc ''Error evaluating summary: '' @ none_has_no_split)"
  using evaluate_never_raises [of ucd0 NoneVal "Str ex_summary"]
  by simp

section \<open>Properties of generation and of the orchestrator\<close>

lemmas class_defs = isspace_def isdecimal_def isalnum_def isword_def retained_def is_bullet_def

lemma pre_noise: "preprocess_text U (asc ''@#'') = []"
  by (simp add: preprocess_text_def strip_def asc_def class_defs strip_noise_def Let_def)

lemma pre_page: "preprocess_text U (asc ''Page 5'') = []"
  by (simp add: preprocess_text_def strip_def asc_def class_defs strip_noise_def Let_def)

text \<open>
  Claim C6. When the text is empty or only whitespace, or its normalisation is empty,
  \<open>summarize_text\<close> returns an empty-input error (the first message for a blank text,
  the second for an empty normalisation) and has sent nothing to the generative service.
\<close>

theorem empty_input_not_sent:
  assumes "text = [] \<or> strip U text = [] \<or> preprocess_text U text = []"
  shows "summarize_text U G text style =
           (if text = [] \<or> strip U text = [] then err_no_text else err_empty_content, [])"
  using assms by (auto simp add: summarize_text_def Let_def)

theorem empty_input_not_sent_witness:
  "preprocess_text ucd0 (asc ''@#'') = [] \<and>
   summarize_text ucd0 genai0 (asc ''@#'') (asc ''bullet'') = (err_empty_content, []) \<and>
   summarize_text ucd0 genai0 (asc ''  '') (asc ''bullet'') = (err_no_text, [])"
  using empty_input_not_sent [of "asc ''@#''" ucd0 genai0 "asc ''bullet''"]
    empty_input_not_sent [of "asc ''  ''" ucd0 genai0 "asc ''bullet''"] pre_noise [of ucd0]
  by (simp add: strip_def asc_def isspace_def)

text \<open>
  Claim C10. There are inputs that are neither empty nor blank and normalise to the
  empty string: one made of characters outside the retained set, and the token
  \<^verbatim>\<open>Page 5\<close>. On the first the second check of \<open>summarize_text\<close>, the one after
  preprocessing, is the one that answers.
\<close>

theorem nonblank_input_normalises_to_empty:
  "asc ''@#'' \<noteq> [] \<and> strip U (asc ''@#'') \<noteq> [] \<and> preprocess_text U (asc ''@#'') = [] \<and>
   asc ''Page 5'' \<noteq> [] \<and> strip U (asc ''Page 5'') \<noteq> [] \<and> preprocess_text U (asc ''Page 5'') = [] \<and>
   summarize_text U G (asc ''@#'') style = (err_empty_content, [])"
  by (simp add: pre_noise pre_page summarize_text_def)
     (simp add: strip_def asc_def isspace_def)




section \<open>Properties of the store\<close>

lemma set_insert_desc: "set (insert_desc r xs) = insert r (set xs)"
  by (induction xs) auto

lemma set_order_by_created_desc: "set (order_by_created_desc xs) = set xs"
  by (induction xs) (simp_all add: order_by_created_desc_def set_insert_desc)

lemma length_insert_desc: "length (insert_desc r xs) = Suc (length xs)"
  by (induction xs) auto

lemma length_order_by_created_desc: "length (order_by_created_desc xs) = length xs"
  by (induction xs) (simp_all add: order_by_created_desc_def length_insert_desc)

lemma set_sql_limit: "set (sql_limit limit off xs) \<subseteq> set xs"
  by (auto simp add: sql_limit_def dest: in_set_takeD in_set_dropD)

lemma sql_limit_all: "length xs \<le> n \<Longrightarrow> sql_limit (int n) 0 xs = xs"
  by (simp add: sql_limit_def)

lemma find_by_id:
  "distinct (map row_id rs) \<Longrightarrow> r \<in> set rs \<Longrightarrow> find (\<lambda>x. row_id x = row_id r) rs = Some r"
proof (induction rs)
  case Nil
  then show ?case by simp
next
  case (Cons x rs)
  then show ?case by (cases "x = r") (auto simp add: image_iff)
qed

lemma find_none: "(\<forall>x \<in> set rs. \<not> P x) \<Longrightarrow> find P rs = None"
  by (induction rs) auto

lemma same_id_same_row:
  "distinct (map row_id rs) \<Longrightarrow> r \<in> set rs \<Longrightarrow> x \<in> set rs \<Longrightarrow> row_id x = row_id r \<Longrightarrow> x = r"
  by (meson distinct_map inj_onD)

lemma listing_subset:
  assumes "get_user_summaries db u limit off = Inr listing"
  shows "set listing \<subseteq> {x \<in> set (rows db). row_user_id x = u}"
proof -
  have "listing = sql_limit limit off (order_by_created_desc
          (filter (\<lambda>x. row_user_id x = u) (rows db)))"
    using assms by (cases "fault db") (simp_all add: get_user_summaries_def)
  then have "set listing \<subseteq> set (order_by_created_desc (filter (\<lambda>x. row_user_id x = u) (rows db)))"
    using set_sql_limit by metis
  then show ?thesis
    by (auto simp add: set_order_by_created_desc)
qed

text \<open>
  Claim C7. In a store whose ids are unique, let \<open>r\<close> be a row and \<open>user_b\<close> a user
  other than its owner. Deleting the id of \<open>r\<close> for \<open>user_b\<close> returns false and
  leaves the store as it was, so \<open>r\<close> is still what \<open>get_summary_by_id\<close> returns and
  is in the listing of its owner. Deleting it for the owner returns true and removes
  exactly \<open>r\<close>: the id is no longer found and no listing of the owner has \<open>r\<close>.
\<close>

theorem delete_needs_owner:
  assumes ok: "db_ok db" and up: "fault db = None"
    and r: "r \<in> set (rows db)" and other: "user_b \<noteq> row_user_id r"
  shows "delete_summary db (row_id r) user_b = Inr (False, db)
    \<and> get_summary_by_id db (row_id r) = Inr (Some r)
    \<and> (\<exists>listing. get_user_summaries db (row_user_id r) (int (length (rows db))) 0 = Inr listing
           \<and> r \<in> set listing)
    \<and> (\<exists>db'. delete_summary db (row_id r) (row_user_id r) = Inr (True, db')
           \<and> rows db' = filter (\<lambda>x. x \<noteq> r) (rows db)
           \<and> get_summary_by_id db' (row_id r) = Inr None
           \<and> (\<forall>limit off listing.
                 get_user_summaries db' (row_user_id r) limit off = Inr listing \<longrightarrow> r \<notin> set listing))"
proof -
  have d: "distinct (map row_id (rows db))"
    using ok by (simp add: db_ok_def)
  have same: "\<And>x. x \<in> set (rows db) \<Longrightarrow> row_id x = row_id r \<Longrightarrow> x = r"
    using same_id_same_row [OF d r] by blast
  have nohit: "filter (\<lambda>x. row_id x = row_id r \<and> row_user_id x = user_b) (rows db) = []"
    using same other by (auto simp add: filter_empty_conv)
  have keep: "filter (\<lambda>x. \<not> (row_id x = row_id r \<and> row_user_id x = user_b)) (rows db) = rows db"
    using same other by (auto simp add: filter_id_conv)
  have c1: "delete_summary db (row_id r) user_b = Inr (False, db)"
    by (simp only: delete_summary_def up Let_def nohit keep) simp
  have c2: "get_summary_by_id db (row_id r) = Inr (Some r)"
    by (simp add: get_summary_by_id_def up find_by_id [OF d r])
  let ?mine = "filter (\<lambda>x. row_user_id x = row_user_id r) (rows db)"
  have "length (order_by_created_desc ?mine) \<le> length (rows db)"
    by (simp add: length_order_by_created_desc)
  then have "sql_limit (int (length (rows db))) 0 (order_by_created_desc ?mine)
               = order_by_created_desc ?mine"
    by (rule sql_limit_all)
  moreover have "r \<in> set (order_by_created_desc ?mine)"
    using r by (simp add: set_order_by_created_desc)
  ultimately have c3: "\<exists>listing. get_user_summaries db (row_user_id r) (int (length (rows db))) 0
           = Inr listing \<and> r \<in> set listing"
    by (simp add: get_user_summaries_def up)
  let ?hit = "\<lambda>x. row_id x = row_id r \<and> row_user_id x = row_user_id r"
  let ?db' = "db \<lparr> rows := filter (\<lambda>x. \<not> ?hit x) (rows db) \<rparr>"
  have hit: "\<And>x. x \<in> set (rows db) \<Longrightarrow> ?hit x \<longleftrightarrow> x = r"
    using same by auto
  have rows': "rows ?db' = filter (\<lambda>x. x \<noteq> r) (rows db)"
    using hit by (auto intro: filter_cong)
  have some: "filter ?hit (rows db) \<noteq> []"
    using r by (auto simp add: filter_empty_conv)
  have del: "delete_summary db (row_id r) (row_user_id r) = Inr (True, ?db')"
    using some by (simp add: delete_summary_def up Let_def)
  have gone: "\<forall>x \<in> set (rows ?db'). \<not> row_id x = row_id r"
    using same by auto
  have get: "get_summary_by_id ?db' (row_id r) = Inr None"
    using find_none [OF gone] by (simp add: get_summary_by_id_def up)
  have notin: "r \<notin> set (rows ?db')"
    by simp
  have lst: "\<forall>limit off listing.
      get_user_summaries ?db' (row_user_id r) limit off = Inr listing \<longrightarrow> r \<notin> set listing"
  proof (intro allI impI)
    fix limit off listing
    assume "get_user_summaries ?db' (row_user_id r) limit off = Inr listing"
    then have "set listing \<subseteq> set (rows ?db')"
      using listing_subset by blast
    then show "r \<notin> set listing"
      using notin by blast
  qed
  have c4: "\<exists>db'. delete_summary db (row_id r) (row_user_id r) = Inr (True, db')
           \<and> rows db' = filter (\<lambda>x. x \<noteq> r) (rows db)
           \<and> get_summary_by_id db' (row_id r) = Inr None
           \<and> (\<forall>limit off listing.
                 get_user_summaries db' (row_user_id r) limit off = Inr listing \<longrightarrow> r \<notin> set listing)"
    using del rows' get lst by blast
  show ?thesis
    using c1 c2 c3 c4 by blast
qed

theorem delete_needs_owner_witness:
  "db_ok db2 \<and> row1 \<in> set (rows db2) \<and> asc ''bob'' \<noteq> row_user_id row1 \<and>
   delete_summary db2 1 (asc ''bob'') = Inr (False, db2) \<and>
   get_summary_by_id db2 1 = Inr (Some row1) \<and>
   (\<exists>db'. delete_summary db2 1 (asc ''alice'') = Inr (True, db') \<and> rows db' = [row2])"
proof -
  have h: "db_ok db2" "fault db2 = None" "row1 \<in> set (rows db2)" "asc ''bob'' \<noteq> row_user_id row1"
    by (simp_all add: db_ok_def db2_def row1_def row2_def asc_def)
  have ne: "row2 \<noteq> row1"
    by (simp add: row1_def row2_def)
  have ids: "row_id row1 = 1" "row_user_id row1 = asc ''alice''"
    by (simp_all add: row1_def)
  have f: "filter (\<lambda>x. x \<noteq> row1) (rows db2) = [row2]"
    using ne by (simp add: db2_def)
  from delete_needs_owner [OF h] show ?thesis
    unfolding ids f using h(1,3) h(4) [unfolded ids] by blast
qed






section \<open>Properties of the normalisation\<close>

lemma isspace_32: "isspace U 32"
  by (simp add: isspace_def)

lemma isspace_not_mark:
  "isspace U c \<Longrightarrow> c \<noteq> 46 \<and> c \<noteq> 33 \<and> c \<noteq> 63 \<and> \<not> (65 \<le> c \<and> c \<le> 90) \<and> \<not> is_bullet c"
  by (auto simp add: isspace_def is_bullet_def split: if_splits)

lemma spaced_hd: "spaced U s \<Longrightarrow> s \<noteq> [] \<Longrightarrow> \<not> isspace U (hd s)"
  by (induction U s rule: spaced.induct) auto

lemma spaced_last: "spaced U s \<Longrightarrow> s \<noteq> [] \<Longrightarrow> \<not> isspace U (last s)"
  by (induction U s rule: spaced.induct) (auto split: if_splits)

lemma spaced_only_32: "spaced U s \<Longrightarrow> c \<in> set s \<Longrightarrow> isspace U c \<Longrightarrow> c = 32"
  by (induction U s rule: spaced.induct) (auto split: if_splits)

lemma dropWhile_hd: "s \<noteq> [] \<Longrightarrow> \<not> P (hd s) \<Longrightarrow> dropWhile P s = s"
  by (cases s) auto

lemma spaced_collapse_id: "spaced U s \<Longrightarrow> collapse_ws U s = s"
proof (induction U s rule: spaced.induct)
  case (3 U c d ds)
  show ?case
  proof (cases "isspace U d")
    case True
    with 3 have d: "d = 32" "ds \<noteq> []" "spaced U ds" "\<not> isspace U c" by auto
    then have "dropWhile (isspace U) ds = ds"
      using spaced_hd [of U ds] by (simp add: dropWhile_hd)
    then show ?thesis
      using 3 d True by simp
  next
    case False
    with 3 show ?thesis by simp
  qed
qed simp_all

lemma spaced_strip_id: "spaced U s \<Longrightarrow> strip U s = s"
proof (cases "s = []")
  case True
  then show ?thesis by (simp add: strip_def)
next
  case False
  assume s: "spaced U s"
  have a: "dropWhile (isspace U) s = s"
    using spaced_hd [OF s False] False by (simp add: dropWhile_hd)
  have "hd (rev s) = last s"
    using False by (simp add: hd_rev)
  then have b: "dropWhile (isspace U) (rev s) = rev s"
    using spaced_last [OF s False] False by (simp add: dropWhile_hd)
  show ?thesis
    by (simp add: strip_def a b)
qed

lemma dropWhile_last:
  "s \<noteq> [] \<Longrightarrow> \<not> P (last s) \<Longrightarrow> dropWhile P s \<noteq> [] \<and> last (dropWhile P s) = last s"
  by (induction s) (auto split: if_splits)

lemma collapse_hd:
  "s \<noteq> [] \<Longrightarrow> \<not> isspace U (hd s) \<Longrightarrow> collapse_ws U s = hd s # collapse_ws U (tl s)"
  by (cases s) auto

lemma collapse_spaced:
  "s \<noteq> [] \<Longrightarrow> \<not> isspace U (last s) \<Longrightarrow>
     (if isspace U (hd s) then \<exists>t. collapse_ws U s = 32 # t \<and> t \<noteq> [] \<and> spaced U t
      else collapse_ws U s \<noteq> [] \<and> spaced U (collapse_ws U s))"
proof (induction U s rule: collapse_ws.induct)
  case (1 U)
  then show ?case by simp
next
  case (2 U c cs)
  show ?case
  proof (cases "isspace U c")
    case True
    with 2 have cs: "cs \<noteq> []" "\<not> isspace U (last cs)"
      by (auto split: if_splits)
    let ?r = "dropWhile (isspace U) cs"
    have r: "?r \<noteq> []" "last ?r = last cs"
      using dropWhile_last [of cs "isspace U"] cs by auto
    have hd: "\<not> isspace U (hd ?r)"
      using r(1) hd_dropWhile by metis
    have "collapse_ws U ?r \<noteq> [] \<and> spaced U (collapse_ws U ?r)"
      using 2(1) [OF True r(1)] r(2) cs(2) hd by simp
    then show ?thesis
      using True by simp
  next
    case False
    show ?thesis
    proof (cases "cs = []")
      case True
      then show ?thesis using False by simp
    next
      case ne: False
      then have l: "\<not> isspace U (last cs)"
        using 2(4) by simp
      note ih = 2(2) [OF False ne l]
      show ?thesis
      proof (cases "isspace U (hd cs)")
        case True
        then obtain t where "collapse_ws U cs = 32 # t" "t \<noteq> []" "spaced U t"
          using ih by auto
        then show ?thesis
          using False by (simp add: isspace_32)
      next
        case nsp: False
        then have sp: "collapse_ws U cs \<noteq> []" "spaced U (collapse_ws U cs)"
          using ih by auto
        have "collapse_ws U cs = hd cs # collapse_ws U (tl cs)"
          using collapse_hd [OF ne nsp] .
        then show ?thesis
          using False sp nsp by simp
      qed
    qed
  qed
qed

lemma strip_ends:
  assumes "strip U s \<noteq> []"
  shows "\<not> isspace U (hd (strip U s))" and "\<not> isspace U (last (strip U s))"
proof -
  let ?a = "dropWhile (isspace U) s"
  let ?b = "dropWhile (isspace U) (rev ?a)"
  have b: "?b \<noteq> []"
    using assms by (simp add: strip_def)
  then have hb: "\<not> isspace U (hd ?b)"
    using hd_dropWhile by metis
  have "last (strip U s) = hd ?b"
    using b by (simp add: strip_def last_rev)
  then show "\<not> isspace U (last (strip U s))"
    using hb by simp
  have a: "?a \<noteq> []"
  proof
    assume "?a = []"
    then have "?b = []" by (simp only: rev.simps(1) dropWhile.simps(1))
    then show False using b by (simp only:)
  qed
  then have ha: "\<not> isspace U (hd ?a)"
    using hd_dropWhile by metis
  have "rev ?a = takeWhile (isspace U) (rev ?a) @ ?b"
    by simp
  then have "rev (rev ?a) = rev (takeWhile (isspace U) (rev ?a) @ ?b)"
    by (rule arg_cong)
  then have "?a = rev ?b @ rev (takeWhile (isspace U) (rev ?a))"
    by (simp only: rev_rev_ident rev_append)
  then have "hd ?a = hd (rev ?b @ rev (takeWhile (isspace U) (rev ?a)))"
    by (rule arg_cong)
  then have "hd (rev ?b) = hd ?a"
    using b by (simp only: hd_append2 rev_is_Nil_conv not_False_eq_True)
  then show "\<not> isspace U (hd (strip U s))"
    using ha by (simp add: strip_def)
qed

lemma collapse_strip_spaced: "spaced U (collapse_ws U (strip U s))"
proof (cases "strip U s = []")
  case True
  then show ?thesis by simp
next
  case False
  then show ?thesis
    using collapse_spaced [OF False, of U] strip_ends [OF False] by simp
qed

lemma fix_hd: "\<exists>t. fix_sentences U (c # cs) = c # t"
  by simp

lemma fix_nomark:
  "\<not> (c = 46 \<or> c = 33 \<or> c = 63) \<Longrightarrow> fix_sentences U (c # cs) = c # fix_sentences U cs"
  by simp

lemma capital_plain:
  "65 \<le> c \<and> c \<le> 90 \<Longrightarrow> \<not> isspace U c \<and> \<not> (c = 46 \<or> c = 33 \<or> c = 63)"
  by (auto simp add: isspace_def)

lemma fix_lead:
  "take 1 (dropWhile (isspace U) (fix_sentences U cs)) = take 1 (dropWhile (isspace U) cs)"
proof (induction cs)
  case Nil
  then show ?case by simp
next
  case (Cons w cs)
  show ?case
  proof (cases "isspace U w")
    case True
    then have "fix_sentences U (w # cs) = w # fix_sentences U cs"
      using isspace_not_mark [of U w] fix_nomark by blast
    then show ?thesis
      using True Cons by simp
  next
    case False
    obtain t where "fix_sentences U (w # cs) = w # t"
      using fix_hd by blast
    then show ?thesis
      using False by simp
  qed
qed

lemma fix_idem: "fix_sentences U (fix_sentences U s) = fix_sentences U s"
proof (induction U s rule: fix_sentences.induct)
  case (1 U)
  then show ?case by simp
next
  case (2 U c cs)
  let ?m = "(c = 46 \<or> c = 33 \<or> c = 63)
      \<and> list_ex (\<lambda>x. 65 \<le> x \<and> x \<le> 90) (take 1 (dropWhile (isspace U) cs))"
  show ?case
  proof (cases ?m)
    case True
    then obtain a rest where d: "dropWhile (isspace U) cs = a # rest"
      by (cases "dropWhile (isspace U) cs") auto
    then have a: "65 \<le> a \<and> a \<le> 90"
      using True by simp
    have out: "fix_sentences U (c # cs) = c # 32 # a # fix_sentences U rest"
      using True d by simp
    have ih: "fix_sentences U (fix_sentences U rest) = fix_sentences U rest"
      using 2(1) [OF True] d by simp
    have "dropWhile (isspace U) (32 # a # fix_sentences U rest) = a # fix_sentences U rest"
      using capital_plain [OF a, of U] by (simp add: isspace_32)
    then have "fix_sentences U (c # 32 # a # fix_sentences U rest)
                = c # 32 # a # fix_sentences U (fix_sentences U rest)"
      using True a by (simp del: dropWhile.simps)
    then show ?thesis
      using out ih by simp
  next
    case False
    then have out: "fix_sentences U (c # cs) = c # fix_sentences U cs"
      by auto
    have "\<not> ((c = 46 \<or> c = 33 \<or> c = 63)
      \<and> list_ex (\<lambda>x. 65 \<le> x \<and> x \<le> 90)
            (take 1 (dropWhile (isspace U) (fix_sentences U cs))))"
      using False fix_lead [of U cs] by simp
    then have "fix_sentences U (c # fix_sentences U cs)
                 = c # fix_sentences U (fix_sentences U cs)"
      by auto
    then show ?thesis
      using out 2(2) [OF False] by simp
  qed
qed

lemma fix_spaced: "spaced U s \<Longrightarrow> spaced U (fix_sentences U s)"
proof (induction s rule: length_induct)
  case (1 s)
  show ?case
  proof (cases "length s < 2")
    case True
    then consider "s = []" | c where "s = [c]"
      by (cases s; cases "tl s") auto
    then show ?thesis
      using 1(2) by cases simp_all
  next
    case False
    then obtain c d ds where s: "s = c # d # ds"
      by (cases s; cases "tl s") auto
    have c: "\<not> isspace U c"
      using 1(2) s by simp
    show ?thesis
    proof (cases "isspace U d")
      case True
      then have d: "d = 32" "ds \<noteq> []" "spaced U ds"
        using 1(2) s by auto
      have h: "\<not> isspace U (hd ds)"
        using spaced_hd [OF d(3) d(2)] .
      have dw: "dropWhile (isspace U) (32 # ds) = ds"
        using h d(2) by (simp add: isspace_32 dropWhile_hd)
      have ds: "ds = hd ds # tl ds"
        using d(2) by simp
      have eq: "fix_sentences U (c # 32 # ds) = c # 32 # fix_sentences U ds"
      proof (cases "(c = 46 \<or> c = 33 \<or> c = 63) \<and> 65 \<le> hd ds \<and> hd ds \<le> 90")
        case True
        then have "fix_sentences U (hd ds # tl ds) = hd ds # fix_sentences U (tl ds)"
          using capital_plain [of "hd ds" U] fix_nomark by blast
        then have r: "fix_sentences U ds = hd ds # fix_sentences U (tl ds)"
          using ds by simp
        have "list_ex (\<lambda>x. 65 \<le> x \<and> x \<le> 90) (take 1 ds)"
          using True d(2) by (cases ds) auto
        then have "fix_sentences U (c # 32 # ds)
            = c # 32 # take 1 ds @ fix_sentences U (drop 1 ds)"
          using True dw by (simp del: dropWhile.simps)
        moreover have "take 1 ds = [hd ds]" "drop 1 ds = tl ds"
          using d(2) by (cases ds; simp)+
        ultimately show ?thesis
          using r by simp
      next
        case False
        have "\<not> list_ex (\<lambda>x. 65 \<le> x \<and> x \<le> 90) (take 1 ds) \<or> \<not> (c = 46 \<or> c = 33 \<or> c = 63)"
          using False d(2) by (cases ds) auto
        then have "fix_sentences U (c # 32 # ds) = c # fix_sentences U (32 # ds)"
          using dw by (auto simp del: dropWhile.simps)
        then show ?thesis
          by simp
      qed
      have "length ds < length s"
        using s by simp
      then have "spaced U (fix_sentences U ds)"
        using 1(1) d(3) by blast
      moreover have "fix_sentences U ds \<noteq> []"
        using ds fix_hd [of U "hd ds" "tl ds"] by auto
      ultimately show ?thesis
        using s d(1) c eq by (simp add: isspace_32)
    next
      case False
      then have sp: "spaced U (d # ds)"
        using 1(2) s by simp
      have "length (d # ds) < length s"
        using s by simp
      then have ih: "spaced U (fix_sentences U (d # ds))"
        using 1(1) sp by blast
      obtain t where t: "fix_sentences U (d # ds) = d # t"
        using fix_hd by blast
      have dw: "dropWhile (isspace U) (d # ds) = d # ds"
        using False by simp
      show ?thesis
      proof (cases "(c = 46 \<or> c = 33 \<or> c = 63) \<and> 65 \<le> d \<and> d \<le> 90")
        case True
        then have "fix_sentences U (d # ds) = d # fix_sentences U ds"
          using capital_plain [of d U] fix_nomark by blast
        moreover have "fix_sentences U (c # d # ds) = c # 32 # d # fix_sentences U ds"
          using True False by simp
        ultimately have "fix_sentences U s = c # 32 # fix_sentences U (d # ds)"
          using s by simp
        then show ?thesis
          using c ih t by (simp add: isspace_32)
      next
        case nm: False
        then have "fix_sentences U (c # d # ds) = c # fix_sentences U (d # ds)"
          using False by auto
        then show ?thesis
          using s c ih t False by simp
      qed
    qed
  qed
qed

lemma set_strip: "set (strip U s) \<subseteq> set s"
proof -
  have "set (strip U s) = set (dropWhile (isspace U) (rev (dropWhile (isspace U) s)))"
    by (simp add: strip_def)
  also have "\<dots> \<subseteq> set (rev (dropWhile (isspace U) s))"
    by (rule set_dropWhileD [THEN subsetI])
  also have "\<dots> \<subseteq> set s"
    by (auto dest: set_dropWhileD)
  finally show ?thesis .
qed

lemma set_collapse: "set (collapse_ws U s) \<subseteq> insert 32 (set s)"
  by (induction U s rule: collapse_ws.induct) (auto dest: set_dropWhileD)

lemma set_fix: "set (fix_sentences U s) \<subseteq> insert 32 (set s)"
proof (induction U s rule: fix_sentences.induct)
  case (1 U)
  then show ?case by simp
next
  case (2 U c cs)
  have a: "set (take 1 (dropWhile (isspace U) cs)) \<subseteq> set cs"
    by (auto dest: in_set_takeD set_dropWhileD)
  have b: "set (drop 1 (dropWhile (isspace U) cs)) \<subseteq> set cs"
    by (auto dest: in_set_dropD set_dropWhileD)
  show ?case
    using 2 a b by (auto simp del: dropWhile.simps)
qed

lemma noise_id: "\<forall>c \<in> set s. retained U c \<Longrightarrow> strip_noise U s = s"
  by (simp add: strip_noise_def filter_id_conv)

lemma ocr_id: "x \<notin> set s \<Longrightarrow> fix_ocr U x y s = s"
  by (induction U x y s rule: fix_ocr.induct) auto

lemma page_id: "\<forall>c \<in> set s. \<not> isdecimal U c \<Longrightarrow> remove_page U s = s"
proof (induction U s rule: remove_page.induct)
  case (1 U)
  then show ?case by simp
next
  case (2 U c cs)
  have "set (take 1 (drop 4 cs)) \<subseteq> set cs"
    by (auto dest: in_set_takeD in_set_dropD)
  then have "\<not> list_ex (isdecimal U) (take 1 (drop 4 cs))"
    using 2(3) by (auto simp add: list_ex_iff)
  then show ?case
    using 2 by simp
qed

lemma line_numbers_id:
  "\<forall>c \<in> set s. \<not> isdecimal U c \<Longrightarrow> remove_line_numbers U bol s = s"
  by (induction U bol s rule: remove_line_numbers.induct) auto

lemma bullets_id: "\<forall>c \<in> set s. \<not> is_bullet c \<Longrightarrow> remove_bullets U bol s = s"
proof (induction U bol s rule: remove_bullets.induct)
  case (1 U bol)
  then show ?case by simp
next
  case (2 U bol c cs)
  have "set (take 1 (dropWhile (isspace U) (c # cs)))
          \<subseteq> set (dropWhile (isspace U) (c # cs))"
    by (rule set_take_subset)
  also have "\<dots> \<subseteq> set (c # cs)"
    by (rule subsetI) (erule set_dropWhileD)
  finally have "\<not> list_ex is_bullet (take 1 (dropWhile (isspace U) (c # cs)))"
    using 2(3) by (auto simp add: list_ex_iff simp del: dropWhile.simps)
  then show ?case
    using 2 by (simp del: dropWhile.simps)
qed

lemma newlines_id: "10 \<notin> set s \<Longrightarrow> squeeze_newlines U s = s"
  by (induction U s rule: squeeze_newlines.induct) auto

lemma plain_facts:
  assumes "retained U c \<and> \<not> isdecimal U c \<and> c \<noteq> 45"
  shows "\<not> is_bullet c" "c \<noteq> 124" "c \<noteq> 48"
  using assms
  by (auto simp add: retained_def isword_def isalnum_def isspace_def isdecimal_def is_bullet_def asc_def)

lemma plain_32: "retained U 32 \<and> \<not> isdecimal U 32 \<and> (32::nat) \<noteq> 45"
  by (simp add: retained_def isspace_def isdecimal_def)

lemma steps_plain:
  assumes p: "\<forall>c \<in> set t. retained U c \<and> \<not> isdecimal U c \<and> c \<noteq> 45"
    and sp: "spaced U t"
  shows "fix_sentences U (squeeze_newlines U (remove_bullets U True (remove_line_numbers U True
           (remove_page U (fix_ocr U 48 111 (fix_ocr U 124 108 (strip_noise U t)))))))
         = fix_sentences U t"
proof -
  have 1: "strip_noise U t = t"
    using p by (simp add: noise_id)
  have 2: "fix_ocr U 124 108 t = t"
    using p plain_facts(2) by (intro ocr_id) blast
  have 3: "fix_ocr U 48 111 t = t"
    using p plain_facts(3) by (intro ocr_id) blast
  have 4: "remove_page U t = t"
    using p by (simp add: page_id)
  have 5: "remove_line_numbers U True t = t"
    using p by (simp add: line_numbers_id)
  have 6: "remove_bullets U True t = t"
    using p plain_facts(1) by (intro bullets_id) blast
  have "10 \<notin> set t"
    using spaced_only_32 [OF sp, of 10] by (auto simp add: isspace_def)
  then have 7: "squeeze_newlines U t = t"
    by (rule newlines_id)
  show ?thesis
    by (simp only: 1 2 3 4 5 6 7)
qed

lemma preprocess_plain:
  assumes p: "\<forall>c \<in> set x. retained U c \<and> \<not> isdecimal U c \<and> c \<noteq> 45"
    and nb: "strip U x \<noteq> []"
  shows "preprocess_text U x = fix_sentences U (collapse_ws U (strip U x))"
proof -
  let ?t = "collapse_ws U (strip U x)"
  have x: "x \<noteq> []"
    using nb by (auto simp add: strip_def)
  have sp: "spaced U ?t"
    by (rule collapse_strip_spaced)
  have "set ?t \<subseteq> insert 32 (set (strip U x))"
    by (rule set_collapse)
  also have "\<dots> \<subseteq> insert 32 (set x)"
    using set_strip by (rule insert_mono)
  finally have sub: "set ?t \<subseteq> insert 32 (set x)" .
  have pt: "\<forall>c \<in> set ?t. retained U c \<and> \<not> isdecimal U c \<and> c \<noteq> 45"
  proof
    fix c
    assume "c \<in> set ?t"
    then have "c = 32 \<or> c \<in> set x"
      using sub by (meson insertE subsetD)
    then show "retained U c \<and> \<not> isdecimal U c \<and> c \<noteq> 45"
    proof
      assume "c = 32"
      then show ?thesis by (simp only: plain_32 simp_thms)
    next
      assume cx: "c \<in> set x"
      from p cx show ?thesis by (rule bspec)
    qed
  qed
  have st: "strip U (fix_sentences U ?t) = fix_sentences U ?t"
    using fix_spaced [OF sp] by (rule spaced_strip_id)
  have g: "\<not> (x = [] \<or> strip U x = [])"
    using x nb by blast
  show ?thesis
    unfolding preprocess_text_def Let_def if_not_P [OF g] steps_plain [OF pt sp] by (rule st)
qed

text \<open>
  Claim C2, amended. Normalisation is idempotent on every text whose characters are all
  kept by the noise filter and are neither digits nor hyphens: letters, underscores,
  whitespace and the marks \<^verbatim>\<open>. , ! ? ; : ( ) [ ] { }\<close>.
\<close>

theorem preprocess_idempotent_on_plain_text:
  assumes p: "\<forall>c \<in> set x. retained U c \<and> \<not> isdecimal U c \<and> c \<noteq> 45"
  shows "preprocess_text U (preprocess_text U x) = preprocess_text U x"
proof (cases "x = [] \<or> strip U x = []")
  case True
  then have "preprocess_text U x = []"
    by (auto simp add: preprocess_text_def)
  then show ?thesis
    by (simp add: preprocess_text_def)
next
  case False
  then have nb: "strip U x \<noteq> []" by simp
  let ?t = "collapse_ws U (strip U x)"
  let ?y = "fix_sentences U ?t"
  have y: "preprocess_text U x = ?y"
    using preprocess_plain [OF p nb] .
  have sp: "spaced U ?y"
    using fix_spaced [OF collapse_strip_spaced] .
  have py: "\<forall>c \<in> set ?y. retained U c \<and> \<not> isdecimal U c \<and> c \<noteq> 45"
  proof
    fix c
    assume "c \<in> set ?y"
    then have "c = 32 \<or> c \<in> set ?t"
      using set_fix [of U ?t] by (meson insertE subsetD)
    then have "c = 32 \<or> c \<in> set (strip U x)"
      using set_collapse [of U "strip U x"] by (meson insertE subsetD)
    then have "c = 32 \<or> c \<in> set x"
      using set_strip [of U x] by (meson subsetD)
    then show "retained U c \<and> \<not> isdecimal U c \<and> c \<noteq> 45"
    proof
      assume "c = 32"
      then show ?thesis by (simp only: plain_32 simp_thms)
    next
      assume cx: "c \<in> set x"
      from p cx show ?thesis by (rule bspec)
    qed
  qed
  show ?thesis
  proof (cases "?y = []")
    case True
    have "preprocess_text U [] = []"
      by (simp add: preprocess_text_def)
    then show ?thesis
      by (simp only: y True)
  next
    case ne: False
    have s: "strip U ?y = ?y"
      using sp by (rule spaced_strip_id)
    have ne': "strip U ?y \<noteq> []"
      using ne by (simp only: s not_False_eq_True)
    have "preprocess_text U ?y = fix_sentences U (collapse_ws U (strip U ?y))"
      using py ne' by (rule preprocess_plain)
    also have "\<dots> = fix_sentences U ?y"
      by (simp only: s spaced_collapse_id [OF sp])
    also have "\<dots> = ?y"
      by (rule fix_idem)
    finally show ?thesis
      by (simp only: y)
  qed
qed

lemma pre_ex_plain: "preprocess_text ucd0 ex_plain = asc ''Hello world. This is fine? Yes''"
  by (simp add: preprocess_text_def strip_def ex_plain_def asc_def class_defs strip_noise_def Let_def)

theorem preprocess_idempotent_on_plain_text_witness:
  "list_all (\<lambda>c. retained ucd0 c \<and> \<not> isdecimal ucd0 c \<and> c \<noteq> 45) ex_plain \<and>
   preprocess_text ucd0 ex_plain = asc ''Hello world. This is fine? Yes'' \<and>
   preprocess_text ucd0 (asc ''Hello world. This is fine? Yes'') = asc ''Hello world. This is fine? Yes''"
proof -
  have h: "\<forall>c \<in> set ex_plain. retained ucd0 c \<and> \<not> isdecimal ucd0 c \<and> c \<noteq> 45"
    by (simp add: ex_plain_def asc_def class_defs)
  show ?thesis
    using preprocess_idempotent_on_plain_text [OF h] h pre_ex_plain by (simp add: list_all_iff)
qed

text \<open>
  Claim C2, as stated, fails: normalising \<^verbatim>\<open>a00b\<close> gives \<^verbatim>\<open>ao0b\<close>, since the
  match of the first zero consumes the second zero as its right neighbour, and
  normalising that gives \<^verbatim>\<open>aoob\<close>.
\<close>

theorem preprocess_not_idempotent:
  "preprocess_text ucd0 (asc ''a00b'') = asc ''ao0b'' \<and>
   preprocess_text ucd0 (preprocess_text ucd0 (asc ''a00b'')) = asc ''aoob'' \<and>
   preprocess_text ucd0 (preprocess_text ucd0 (asc ''a00b'')) \<noteq> preprocess_text ucd0 (asc ''a00b'')"
proof -
  have 1: "preprocess_text ucd0 (asc ''a00b'') = asc ''ao0b''"
    by (simp add: preprocess_text_def strip_def asc_def class_defs strip_noise_def Let_def)
  have 2: "preprocess_text ucd0 (asc ''ao0b'') = asc ''aoob''"
    by (simp add: preprocess_text_def strip_def asc_def class_defs strip_noise_def Let_def)
  show ?thesis
    unfolding 1 2 by (simp add: asc_def)
qed

section \<open>Properties of the search\<close>











end
